theory Spec2Isabelle
  imports Main "HOL-Library.Char_ord" "HOL-Library.List_Lexorder"
begin

section \<open>String primitives of the host language\<close>



fun startsWith :: "string \<Rightarrow> string \<Rightarrow> bool" where
  "startsWith text [] = True"
| "startsWith [] (k # ks) = False"
| "startsWith (c # cs) (k # ks) = (c = k \<and> startsWith cs ks)"

text \<open>\<open>includes_str text k\<close> is \<open>text.includes(k)\<close>: \<open>k\<close> occurs in \<open>text\<close> as a contiguous run.\<close>

fun includes_str :: "string \<Rightarrow> string \<Rightarrow> bool" where
  "includes_str [] k = (k = [])"
| "includes_str (c # cs) k = (startsWith (c # cs) k \<or> includes_str cs k)"

text \<open>\<open>join xs sep\<close> is \<open>xs.join(sep)\<close>.\<close>

fun join :: "string list \<Rightarrow> string \<Rightarrow> string" where
  "join [] sep = []"
| "join [x] sep = x"
| "join (x # y # ys) sep = x @ sep @ join (y # ys) sep"









text \<open>A thrown error, and the state of a promise.\<close>

datatype error = Error string

datatype 'a PromiseState = Pending | Fulfilled 'a | Rejected error


section \<open>AI provider detector\<close>

subsection \<open>Extension metadata\<close>

record Command =
  command :: "string option"
  title :: "string option"

text \<open>
  Of \<open>completionProviders\<close>, \<open>inlineCompletionProviders\<close> and \<open>languages\<close> the detector
  reads only the truthiness, so each is the boolean "the key is present with a truthy value".
\<close>

record Contributes =
  commands :: "Command list option"
  completionProviders :: bool
  inlineCompletionProviders :: bool
  languages :: bool

record PackageJSON =
  description :: "string option"
  displayName_pkg :: "string option"
  keywords_pkg :: "string list option"
  categories :: "string list option"
  contributes :: "Contributes option"
  version_pkg :: "string option"

record Extension =
  id_ext :: string
  isActive_ext :: bool
  packageJSON :: PackageJSON




subsection \<open>The allow-list\<close>




subsection \<open>The heuristic\<close>











subsection \<open>The detection pass\<close>








definition exampleChat :: Extension where
  "exampleChat =
     \<lparr>id_ext = ''acme.chat'', isActive_ext = False,
      packageJSON =
        \<lparr>description = None, displayName_pkg = Some ''beta talk'',
         keywords_pkg = None, categories = Some [''Machine Learning''],
         contributes = Some
           \<lparr>commands = Some [\<lparr>command = Some ''acme.open'', title = Some ''Open Chat''\<rparr>],
            completionProviders = False, inlineCompletionProviders = False,
            languages = False\<rparr>,
         version_pkg = None\<rparr>\<rparr>"

definition exampleCopilot :: Extension where
  "exampleCopilot =
     \<lparr>id_ext = ''github.copilot'', isActive_ext = True,
      packageJSON =
        \<lparr>description = Some ''Notes'', displayName_pkg = Some ''Notes'',
         keywords_pkg = Some [''notes''], categories = Some [''Other''],
         contributes = None, version_pkg = Some ''1.2.3''\<rparr>\<rparr>"


subsection \<open>Waiting for activation\<close>

text \<open>
  \<open>waitForProviderActivation\<close> builds a promise. Its executor arms the timer and then calls
  \<open>extension.activate()\<close>: the call either returns a thenable, to which the \<open>then\<close> and
  \<open>catch\<close> callbacks are attached, or it throws, and an executor that throws rejects the
  promise it is building. Afterwards the host runs the callbacks one at a time, in the
  order in which the timer and the activation settle; that order is the list of events. A
  promise keeps the first state it is settled with, and a cleared timer never fires.
\<close>

datatype ActivateCall = ReturnsThenable | ThrowsSynchronously error

datatype SettleEvent = TimerFired | ActivationFulfilled | ActivationRejected

record PendingWait =
  promise :: "bool PromiseState"
  timerArmed :: bool

definition resolve :: "bool \<Rightarrow> PendingWait \<Rightarrow> PendingWait" where
  "resolve v w = (case promise w of Pending \<Rightarrow> w\<lparr>promise := Fulfilled v\<rparr> | settled \<Rightarrow> w)"

definition reject :: "error \<Rightarrow> PendingWait \<Rightarrow> PendingWait" where
  "reject e w = (case promise w of Pending \<Rightarrow> w\<lparr>promise := Rejected e\<rparr> | settled \<Rightarrow> w)"

definition clearTimeout :: "PendingWait \<Rightarrow> PendingWait" where
  "clearTimeout w = w\<lparr>timerArmed := False\<rparr>"

definition executor :: "ActivateCall \<Rightarrow> PendingWait" where
  "executor call =
     (let armed = \<lparr>promise = Pending, timerArmed = True\<rparr>
      in case call of
           ReturnsThenable \<Rightarrow> armed
         | ThrowsSynchronously e \<Rightarrow> reject e armed)"

fun settle :: "PendingWait \<Rightarrow> SettleEvent \<Rightarrow> PendingWait" where
  "settle w TimerFired = (if timerArmed w then resolve False (w\<lparr>timerArmed := False\<rparr>) else w)"
| "settle w ActivationFulfilled = resolve True (clearTimeout w)"
| "settle w ActivationRejected = resolve False (clearTimeout w)"

text \<open>
  The first argument is what \<open>vscode.extensions.getExtension\<close> returned, the second how
  the call of \<open>activate\<close> goes, the third the events that follow. The result is the state of
  the returned promise: \<open>Rejected\<close> is what the awaiting caller sees as a thrown error.
\<close>

definition waitForProviderActivation ::
  "Extension option \<Rightarrow> ActivateCall \<Rightarrow> SettleEvent list \<Rightarrow> bool PromiseState" where
  "waitForProviderActivation ext call events =
     (case ext of
        None \<Rightarrow> Fulfilled False
      | Some e \<Rightarrow>
          if isActive_ext e then Fulfilled True
          else promise (foldl settle (executor call) events))"



section \<open>Live context stream\<close>

subsection \<open>The context buffer\<close>

record TextDocumentContentChangeEvent =
  rangeOffset :: nat
  rangeLength :: nat
  text_change :: string

record DocumentChange =
  file_change :: string
  changes_doc :: "TextDocumentContentChangeEvent list"
  timestamp :: int
  language :: string

record SaveEvent =
  file_save :: string
  timestamp_save :: int

type_synonym Position = "nat \<times> nat"

record SelectionChange =
  file_sel :: string
  selection :: "Position \<times> Position"
  timestamp_sel :: int

record ContextBuffer =
  changes :: "DocumentChange list"
  saves :: "SaveEvent list"
  selections :: "SelectionChange list"
  currentFile :: string
  maxBufferSize :: nat

definition newContextBuffer :: ContextBuffer where
  "newContextBuffer =
     \<lparr>changes = [], saves = [], selections = [], currentFile = [], maxBufferSize = 100\<rparr>"

text \<open>\<open>sliceFromEnd n xs\<close> is \<open>xs.slice(-n)\<close>; \<open>slice(-0)\<close> is \<open>slice(0)\<close>, the whole array.\<close>

definition sliceFromEnd :: "nat \<Rightarrow> 'a list \<Rightarrow> 'a list" where
  "sliceFromEnd n xs = (if n = 0 then xs else drop (length xs - n) xs)"

definition addChange :: "DocumentChange \<Rightarrow> ContextBuffer \<Rightarrow> ContextBuffer" where
  "addChange change b =
     (let pushed = changes b @ [change]
      in if length pushed > maxBufferSize b
         then b\<lparr>changes := sliceFromEnd (maxBufferSize b) pushed\<rparr>
         else b\<lparr>changes := pushed\<rparr>)"

text \<open>The first argument of \<open>addSaveEvent\<close> is the reading of \<open>Date.now()\<close>.\<close>

definition addSaveEvent :: "int \<Rightarrow> string \<Rightarrow> ContextBuffer \<Rightarrow> ContextBuffer" where
  "addSaveEvent now f b =
     (let pushed = saves b @ [\<lparr>file_save = f, timestamp_save = now\<rparr>]
      in if length pushed > 50
         then b\<lparr>saves := sliceFromEnd 50 pushed\<rparr>
         else b\<lparr>saves := pushed\<rparr>)"

definition addSelectionChange :: "SelectionChange \<Rightarrow> ContextBuffer \<Rightarrow> ContextBuffer" where
  "addSelectionChange sel b =
     (let pushed = selections b @ [sel]
      in if length pushed > 20
         then b\<lparr>selections := sliceFromEnd 20 pushed\<rparr>
         else b\<lparr>selections := pushed\<rparr>)"

definition setCurrentFile :: "string \<Rightarrow> ContextBuffer \<Rightarrow> ContextBuffer" where
  "setCurrentFile f b = b\<lparr>currentFile := f\<rparr>"

text \<open>
  The queries return their result together with the buffer they leave behind. The first
  argument of \<open>getRecentChanges\<close> is the reading of \<open>Date.now()\<close>, the second the window in
  minutes (10 when the caller gives none).
\<close>

definition getRecentChanges ::
  "int \<Rightarrow> int \<Rightarrow> ContextBuffer \<Rightarrow> DocumentChange list \<times> ContextBuffer" where
  "getRecentChanges now minutes b =
     (let cutoff = now - (minutes * 60 * 1000)
      in (filter (\<lambda>change. timestamp change > cutoff) (changes b), b))"

definition getChangesForFile :: "string \<Rightarrow> ContextBuffer \<Rightarrow> DocumentChange list" where
  "getChangesForFile f b = filter (\<lambda>change. file_change change = f) (changes b)"

text \<open>The operations that put something into the buffer, and a run of them.\<close>

datatype BufferOp =
    AddChange DocumentChange
  | AddSaveEvent int string
  | AddSelectionChange SelectionChange
  | SetCurrentFile string

fun applyOp :: "ContextBuffer \<Rightarrow> BufferOp \<Rightarrow> ContextBuffer" where
  "applyOp b (AddChange change) = addChange change b"
| "applyOp b (AddSaveEvent now f) = addSaveEvent now f b"
| "applyOp b (AddSelectionChange sel) = addSelectionChange sel b"
| "applyOp b (SetCurrentFile f) = setCurrentFile f b"

definition ingest :: "BufferOp list \<Rightarrow> ContextBuffer" where
  "ingest ops = foldl applyOp newContextBuffer ops"

text \<open>The changes, saves and selections that a run of operations hands over, in order.\<close>

fun ingestedChanges :: "BufferOp list \<Rightarrow> DocumentChange list" where
  "ingestedChanges [] = []"
| "ingestedChanges (AddChange change # ops) = change # ingestedChanges ops"
| "ingestedChanges (other # ops) = ingestedChanges ops"

fun ingestedSaves :: "BufferOp list \<Rightarrow> SaveEvent list" where
  "ingestedSaves [] = []"
| "ingestedSaves (AddSaveEvent now f # ops) =
     \<lparr>file_save = f, timestamp_save = now\<rparr> # ingestedSaves ops"
| "ingestedSaves (other # ops) = ingestedSaves ops"

fun ingestedSelections :: "BufferOp list \<Rightarrow> SelectionChange list" where
  "ingestedSelections [] = []"
| "ingestedSelections (AddSelectionChange sel # ops) = sel # ingestedSelections ops"
| "ingestedSelections (other # ops) = ingestedSelections ops"

subsection \<open>The stream and its handlers\<close>

datatype Subscription =
    OnDidChangeTextDocument
  | OnDidChangeActiveTextEditor
  | OnDidSaveTextDocument
  | OnDidChangeWorkspaceFolders
  | OnDidChangeTextEditorSelection

record LiveContextStream =
  contextBuffer :: ContextBuffer
  disposables :: "Subscription list"
  isActive :: bool
  contextUpdateTimer :: "nat option"

definition newLiveContextStream :: LiveContextStream where
  "newLiveContextStream =
     \<lparr>contextBuffer = newContextBuffer, disposables = [], isActive = False,
      contextUpdateTimer = None\<rparr>"

definition startContextTracking :: "LiveContextStream \<Rightarrow> LiveContextStream" where
  "startContextTracking s =
     (if isActive s then s
      else s\<lparr>isActive := True,
             disposables := disposables s @
               [OnDidChangeTextDocument, OnDidChangeActiveTextEditor, OnDidSaveTextDocument,
                OnDidChangeWorkspaceFolders, OnDidChangeTextEditorSelection],
             contextUpdateTimer := Some 5000\<rparr>)"

definition stop :: "LiveContextStream \<Rightarrow> LiveContextStream" where
  "stop s = s\<lparr>isActive := False, disposables := [], contextUpdateTimer := None\<rparr>"

record TextDocument =
  uri_scheme :: string
  fileName :: string
  languageId :: string

text \<open>What the handlers send to the knowledge service without waiting for it.\<close>

datatype Outbound = TrackCodeChange string "TextDocumentContentChangeEvent list" int

text \<open>
  Every handler takes the stream and returns it with the calls it sent out. \<open>now\<close> is the
  clock reading at the time of the call.
\<close>

definition onDocumentChange ::
  "int \<Rightarrow> TextDocument \<Rightarrow> TextDocumentContentChangeEvent list \<Rightarrow> LiveContextStream
     \<Rightarrow> LiveContextStream \<times> Outbound list" where
  "onDocumentChange now document contentChanges s =
     (if \<not> isActive s \<or> uri_scheme document \<noteq> ''file'' then (s, [])
      else
        (s\<lparr>contextBuffer :=
             addChange \<lparr>file_change = fileName document, changes_doc = contentChanges,
                        timestamp = now, language = languageId document\<rparr> (contextBuffer s)\<rparr>,
         [TrackCodeChange (fileName document) contentChanges now]))"

definition onEditorChange ::
  "TextDocument option \<Rightarrow> LiveContextStream \<Rightarrow> LiveContextStream \<times> Outbound list" where
  "onEditorChange editor s =
     (if \<not> isActive s \<or> editor = None then (s, [])
      else
        (s\<lparr>contextBuffer := setCurrentFile (fileName (the editor)) (contextBuffer s)\<rparr>,
         []))"

definition onDocumentSave ::
  "int \<Rightarrow> TextDocument \<Rightarrow> LiveContextStream \<Rightarrow> LiveContextStream \<times> Outbound list" where
  "onDocumentSave now document s =
     (if \<not> isActive s \<or> uri_scheme document \<noteq> ''file'' then (s, [])
      else (s\<lparr>contextBuffer := addSaveEvent now (fileName document) (contextBuffer s)\<rparr>, []))"

definition onWorkspaceFolderChange ::
  "LiveContextStream \<Rightarrow> LiveContextStream \<times> Outbound list" where
  "onWorkspaceFolderChange s = (if \<not> isActive s then (s, []) else (s, []))"

definition onSelectionChange ::
  "int \<Rightarrow> TextDocument \<Rightarrow> Position \<times> Position \<Rightarrow> LiveContextStream
     \<Rightarrow> LiveContextStream \<times> Outbound list" where
  "onSelectionChange now document sel s =
     (if \<not> isActive s then (s, [])
      else
        (s\<lparr>contextBuffer :=
             addSelectionChange \<lparr>file_sel = fileName document, selection = sel,
                                 timestamp_sel = now\<rparr> (contextBuffer s)\<rparr>,
         []))"

text \<open>
  The part of \<open>getLatestContext\<close> that is read from the buffer: the recent changes, with
  the stream as the query leaves it.
\<close>

definition getLatestContext_recentChanges ::
  "int \<Rightarrow> LiveContextStream \<Rightarrow> DocumentChange list \<times> LiveContextStream" where
  "getLatestContext_recentChanges now s =
     (let (recent, b) = getRecentChanges now 10 (contextBuffer s)
      in (recent, s\<lparr>contextBuffer := b\<rparr>))"

text \<open>The timer's callback takes a snapshot and drops it.\<close>

definition updateContextPeriodically ::
  "int \<Rightarrow> LiveContextStream \<Rightarrow> LiveContextStream \<times> Outbound list" where
  "updateContextPeriodically now s =
     (if \<not> isActive s then (s, [])
      else (snd (getLatestContext_recentChanges now s), []))"

text \<open>The notifications of the host, each with the clock reading at its delivery.\<close>

datatype HostEvent =
    DocumentChanged int TextDocument "TextDocumentContentChangeEvent list"
  | EditorChanged "TextDocument option"
  | DocumentSaved int TextDocument
  | WorkspaceFoldersChanged
  | SelectionChanged int TextDocument "Position \<times> Position"
  | TimerTick int

fun deliver :: "LiveContextStream \<Rightarrow> HostEvent \<Rightarrow> LiveContextStream \<times> Outbound list" where
  "deliver s (DocumentChanged now document contentChanges) =
     onDocumentChange now document contentChanges s"
| "deliver s (EditorChanged editor) = onEditorChange editor s"
| "deliver s (DocumentSaved now document) = onDocumentSave now document s"
| "deliver s WorkspaceFoldersChanged = onWorkspaceFolderChange s"
| "deliver s (SelectionChanged now document sel) = onSelectionChange now document sel s"
| "deliver s (TimerTick now) = updateContextPeriodically now s"

fun deliverAll :: "LiveContextStream \<Rightarrow> HostEvent list \<Rightarrow> LiveContextStream \<times> Outbound list" where
  "deliverAll s [] = (s, [])"
| "deliverAll s (event # events) =
     (let (s1, sent1) = deliver s event;
          (s2, sent2) = deliverAll s1 events
      in (s2, sent1 @ sent2))"

text \<open>Sample changes: one per millisecond, the first at reading 0.\<close>

definition exampleChange :: "nat \<Rightarrow> DocumentChange" where
  "exampleChange n =
     \<lparr>file_change = ''/work/app.ts'', changes_doc = [], timestamp = int n, language = ''typescript''\<rparr>"

definition exampleBuffer :: ContextBuffer where
  "exampleBuffer = ingest [AddChange (exampleChange 1000)]"


text \<open>
  A run of 101 changes, and a stream that was started and has taken one change, with the
  notifications delivered to it afterwards.
\<close>

definition exampleOps101 :: "BufferOp list" where
  "exampleOps101 = map (\<lambda>n. AddChange (exampleChange n)) [0..<101]"

definition exampleDocument :: TextDocument where
  "exampleDocument = \<lparr>uri_scheme = ''file'', fileName = ''/work/app.ts'', languageId = ''typescript''\<rparr>"

definition exampleEvents :: "HostEvent list" where
  "exampleEvents =
     [DocumentChanged 2000 exampleDocument [],
      EditorChanged (Some exampleDocument),
      DocumentSaved 2001 exampleDocument,
      WorkspaceFoldersChanged,
      SelectionChanged 2002 exampleDocument ((0, 0), (0, 5)),
      TimerTick 5000]"

definition exampleStream :: LiveContextStream where
  "exampleStream =
     fst (deliver (startContextTracking newLiveContextStream)
            (DocumentChanged 1000 exampleDocument []))"


section \<open>AI enhancement layer\<close>

record AIRequest =
  prompt :: string
  context_req :: "string option"
  provider_req :: "string option"
  model_req :: "string option"

record EnhancedContext =
  projectSummary :: string
  relevantDecisions :: "string list"
  relevantPatterns :: "string list"
  currentBranch :: string
  recentChanges_kh :: string
  suggestions :: "string list"

record VSCodeContext =
  activeFile :: string
  workspaceRoot :: string
  gitBranch :: string
  openFiles :: "string list"
  recentChanges_vs :: "string list"
  cursorPosition :: "Position option"
  selectedText :: "string option"

text \<open>
  The request comes back as it was, or as a new object with the three added fields.
\<close>

datatype EnhancedAIRequest =
    Original AIRequest
  | Enhanced AIRequest string EnhancedContext VSCodeContext

record ContextQuery =
  query :: string
  currentFile_query :: string
  workspaceRoot_query :: string
  recentChanges_query :: "string list"

definition newline :: string where
  "newline = [CHR 0x0A]"

definition doubleQuote :: string where
  "doubleQuote = [CHR 0x22]"

text \<open>
  The first argument is the value of the setting \<open>knowledgehub.ai.enhancementLevel\<close>, which
  the host reads as \<open>maximum\<close> when it is not set.
\<close>

definition createEnhancedPrompt ::
  "string \<Rightarrow> string \<Rightarrow> EnhancedContext \<Rightarrow> VSCodeContext \<Rightarrow> string" where
  "createEnhancedPrompt enhancementLevel originalPrompt knowledgeHubContext vscodeContext =
     (if enhancementLevel = ''minimal'' then
        originalPrompt @ newline @ newline @
        ''[Project: '' @ workspaceRoot vscodeContext @ '']''
      else if enhancementLevel = ''standard'' then
        newline @ ''# Context from KnowledgeHub AI Intelligence'' @ newline @
        newline @ ''## Current File: '' @ activeFile vscodeContext @ newline @
        ''## Git Branch: '' @ gitBranch vscodeContext @ newline @
        newline @ ''## Recent Project Patterns:'' @ newline @
        join (take 3 (relevantPatterns knowledgeHubContext)) newline @ newline @
        newline @ ''## Original Request:'' @ newline @
        originalPrompt @ newline
      else
        newline @ ''# Enhanced Context from KnowledgeHub AI Intelligence'' @ newline @
        newline @ ''## Project Context:'' @ newline @
        projectSummary knowledgeHubContext @ newline @
        newline @ ''## Relevant Past Decisions:'' @ newline @
        join (map (\<lambda>decision. ''- '' @ decision)
               (take 3 (relevantDecisions knowledgeHubContext))) newline @ newline @
        newline @ ''## Known Patterns for This Task:'' @ newline @
        join (map (\<lambda>pattern. ''- '' @ pattern)
               (take 5 (relevantPatterns knowledgeHubContext))) newline @ newline @
        newline @ ''## Current Development Context:'' @ newline @
        ''- **File**: '' @ activeFile vscodeContext @ newline @
        ''- **Git Branch**: '' @ gitBranch vscodeContext @ newline @
        ''- **Workspace**: '' @ workspaceRoot vscodeContext @ newline @
        ''- **Selected Text**: '' @
          (case selectedText vscodeContext of
             None \<Rightarrow> ''None''
           | Some sel \<Rightarrow> if sel = [] then ''None'' else doubleQuote @ sel @ doubleQuote) @
          newline @
        newline @ ''## AI Suggestions:'' @ newline @
        join (map (\<lambda>suggestion. ''- '' @ suggestion)
               (take 3 (suggestions knowledgeHubContext))) newline @ newline @
        newline @ ''## Original Request:'' @ newline @
        originalPrompt @ newline @
        newline @ ''---'' @ newline @
        ''Please provide a response that considers the full project context, learned patterns, and past decisions. Focus on consistency with existing codebase patterns and architectural decisions.'' @
        newline)"

text \<open>\<open>tryCatch body handler\<close> is \<open>try { body } catch (error) { handler }\<close>.\<close>

definition tryCatch :: "error + 'a \<Rightarrow> (error \<Rightarrow> error + 'a) \<Rightarrow> error + 'a" where
  "tryCatch body handler = (case body of Inl e \<Rightarrow> handler e | Inr v \<Rightarrow> Inr v)"

text \<open>
  The layer's \<open>isActive\<close> flag, the setting, the outcome of \<open>gatherVSCodeContext\<close> and the
  knowledge service's \<open>getEnhancedContext\<close> are the arguments before the request. A thrown
  error is \<open>Inl\<close>.
\<close>

definition enhanceAIRequest ::
  "bool \<Rightarrow> string \<Rightarrow> error + VSCodeContext \<Rightarrow> (ContextQuery \<Rightarrow> error + EnhancedContext)
     \<Rightarrow> AIRequest \<Rightarrow> error + EnhancedAIRequest" where
  "enhanceAIRequest layerActive enhancementLevel gatherVSCodeContext getEnhancedContext
     originalRequest =
     (if \<not> layerActive then Inr (Original originalRequest)
      else
        tryCatch
          (case gatherVSCodeContext of
             Inl e \<Rightarrow> Inl e
           | Inr vscodeContext \<Rightarrow>
               (case getEnhancedContext
                       \<lparr>query = prompt originalRequest,
                        currentFile_query = activeFile vscodeContext,
                        workspaceRoot_query = workspaceRoot vscodeContext,
                        recentChanges_query = recentChanges_vs vscodeContext\<rparr> of
                  Inl e \<Rightarrow> Inl e
                | Inr knowledgeHubContext \<Rightarrow>
                    Inr (Enhanced originalRequest
                          (createEnhancedPrompt enhancementLevel (prompt originalRequest)
                             knowledgeHubContext vscodeContext)
                          knowledgeHubContext vscodeContext)))
          (\<lambda>e. Inr (Original originalRequest)))"

text \<open>Sample request and contexts.\<close>

definition exampleRequest :: AIRequest where
  "exampleRequest =
     \<lparr>prompt = ''Create a user authentication function'', context_req = None,
      provider_req = None, model_req = None\<rparr>"

definition exampleKnowledge :: EnhancedContext where
  "exampleKnowledge =
     \<lparr>projectSummary = ''E-commerce platform using Node.js and React'',
      relevantDecisions = [''Use bcrypt for password hashing''],
      relevantPatterns = [''JWT authentication'', ''Express middleware''],
      currentBranch = ''main'',
      recentChanges_kh = [],
      suggestions = [''Consider rate limiting for login attempts'']\<rparr>"

definition exampleVSCode :: VSCodeContext where
  "exampleVSCode =
     \<lparr>activeFile = ''test.js'', workspaceRoot = ''/opt/projects/test'', gitBranch = ''main'',
      openFiles = [''test.js''], recentChanges_vs = [], cursorPosition = None,
      selectedText = None\<rparr>"


text \<open>Two knowledge services: one whose call fails, one that answers.\<close>

definition exampleFailingService :: "ContextQuery \<Rightarrow> error + EnhancedContext" where
  "exampleFailingService q = Inl (Error ''Failed to get enhanced context: Network Error'')"

definition exampleService :: "ContextQuery \<Rightarrow> error + EnhancedContext" where
  "exampleService q = Inr exampleKnowledge"


section \<open>Properties of the detector\<close>

subsection \<open>Sorting with a comparator\<close>





















subsection \<open>The threshold of the heuristic\<close>







subsection \<open>Allow-listed extensions\<close>





subsection \<open>Order and uniqueness of the result\<close>




subsection \<open>Waiting for activation\<close>

lemma settled_stays:
  "promise w \<noteq> Pending \<Longrightarrow> promise (foldl settle w events) = promise w"
proof (induction events arbitrary: w)
  case Nil
  then show ?case by simp
next
  case (Cons event events)
  have "promise (settle w event) = promise w"
    using Cons.prems
    by (cases event) (simp_all add: resolve_def clearTimeout_def split: PromiseState.splits)
  then show ?case using Cons by simp
qed

lemma timer_stays_cleared:
  "\<not> timerArmed w \<Longrightarrow> \<not> timerArmed (foldl settle w events)"
proof (induction events arbitrary: w)
  case Nil
  then show ?case by simp
next
  case (Cons event events)
  have "\<not> timerArmed (settle w event)"
    using Cons.prems
    by (cases event) (simp_all add: resolve_def clearTimeout_def split: PromiseState.splits)
  then show ?case using Cons.IH by simp
qed

lemma first_settle:
  "promise (settle (executor ReturnsThenable) event) = Fulfilled (event = ActivationFulfilled) \<and>
   \<not> timerArmed (settle (executor ReturnsThenable) event)"
  by (cases event) (simp_all add: executor_def resolve_def clearTimeout_def)

text \<open>
  When \<open>activate\<close> returns its thenable, the answer is a boolean: \<open>false\<close> for an extension
  that is not installed and \<open>true\<close> for one that is already active; otherwise the first of
  the timer and the activation to settle decides it, \<open>true\<close> exactly when that is the
  fulfilled activation, whatever settles later changes nothing, and the timer is no longer
  armed.
\<close>

theorem first_settled_wins:
  "waitForProviderActivation None call events = Fulfilled False \<and>
   (isActive_ext ext \<longrightarrow> waitForProviderActivation (Some ext) call events = Fulfilled True) \<and>
   (\<not> isActive_ext ext \<longrightarrow>
      waitForProviderActivation (Some ext) ReturnsThenable (event # events) =
        Fulfilled (event = ActivationFulfilled) \<and>
      waitForProviderActivation (Some ext) ReturnsThenable (event # events) =
        waitForProviderActivation (Some ext) ReturnsThenable [event] \<and>
      \<not> timerArmed (foldl settle (executor ReturnsThenable) (event # events)))"
proof -
  have "promise (foldl settle (executor ReturnsThenable) (event # events)) =
      Fulfilled (event = ActivationFulfilled)"
    using settled_stays [of "settle (executor ReturnsThenable) event" events] first_settle
    by simp
  moreover have
    "\<not> timerArmed (foldl settle (executor ReturnsThenable) (event # events))"
    using timer_stays_cleared first_settle by simp
  moreover have "promise (foldl settle (executor ReturnsThenable) [event]) =
      Fulfilled (event = ActivationFulfilled)"
    using first_settle by simp
  ultimately show ?thesis
    by (simp add: waitForProviderActivation_def)
qed

lemma first_settled_wins_example:
  "\<not> isActive_ext exampleChat \<and> isActive_ext exampleCopilot \<and>
   waitForProviderActivation (Some exampleCopilot) ReturnsThenable [] = Fulfilled True \<and>
   waitForProviderActivation (Some exampleChat) ReturnsThenable
     [ActivationFulfilled, TimerFired] = Fulfilled True \<and>
   waitForProviderActivation (Some exampleChat) ReturnsThenable
     [TimerFired, ActivationFulfilled] = Fulfilled False \<and>
   waitForProviderActivation (Some exampleChat) ReturnsThenable
     [ActivationRejected, TimerFired] = Fulfilled False"
proof -
  have chat: "\<not> isActive_ext exampleChat" by (simp add: exampleChat_def)
  have copilot: "isActive_ext exampleCopilot" by (simp add: exampleCopilot_def)
  show ?thesis
    using first_settled_wins [of ReturnsThenable "[]" exampleCopilot]
      first_settled_wins [of ReturnsThenable "[TimerFired]" exampleChat ActivationFulfilled]
      first_settled_wins [of ReturnsThenable "[ActivationFulfilled]" exampleChat TimerFired]
      first_settled_wins [of ReturnsThenable "[TimerFired]" exampleChat ActivationRejected]
      chat copilot
    by simp
qed




section \<open>Properties of the live context stream\<close>

subsection \<open>Capacity of the buffer\<close>

lemma drop_snoc_window:
  "0 < n \<Longrightarrow> drop (length (drop (length xs - n) xs @ [x]) - n) (drop (length xs - n) xs @ [x])
     = drop (length (xs @ [x]) - n) (xs @ [x])"
  by (cases "length xs < n") (auto simp: Suc_diff_le)

lemma changes_addChange:
  "maxBufferSize b = 100 \<Longrightarrow>
     changes (addChange change b) = drop (length (changes b @ [change]) - 100) (changes b @ [change])"
  by (simp add: addChange_def Let_def sliceFromEnd_def)

lemma saves_addSaveEvent:
  "saves (addSaveEvent now f b) =
     drop (length (saves b @ [\<lparr>file_save = f, timestamp_save = now\<rparr>]) - 50)
       (saves b @ [\<lparr>file_save = f, timestamp_save = now\<rparr>])"
  by (simp add: addSaveEvent_def Let_def sliceFromEnd_def)

lemma selections_addSelectionChange:
  "selections (addSelectionChange sel b) =
     drop (length (selections b @ [sel]) - 20) (selections b @ [sel])"
  by (simp add: addSelectionChange_def Let_def sliceFromEnd_def)

lemma applyOp_frame:
  "maxBufferSize (applyOp b op) = maxBufferSize b"
  by (cases op) (simp_all add: addChange_def addSaveEvent_def addSelectionChange_def
      setCurrentFile_def Let_def)

lemma ingest_snoc: "ingest (ops @ [op]) = applyOp (ingest ops) op"
  by (simp add: ingest_def)

lemma maxBufferSize_ingest: "maxBufferSize (ingest ops) = 100"
  by (induction ops rule: rev_induct) (simp_all add: ingest_snoc applyOp_frame, simp add: ingest_def newContextBuffer_def)

lemma ingestedChanges_snoc:
  "ingestedChanges (ops @ [op]) =
     ingestedChanges ops @ (case op of AddChange change \<Rightarrow> [change] | _ \<Rightarrow> [])"
  by (induction ops rule: ingestedChanges.induct) (auto split: BufferOp.splits)

lemma ingestedSaves_snoc:
  "ingestedSaves (ops @ [op]) =
     ingestedSaves ops @
       (case op of AddSaveEvent now f \<Rightarrow> [\<lparr>file_save = f, timestamp_save = now\<rparr>] | _ \<Rightarrow> [])"
  by (induction ops rule: ingestedSaves.induct) (auto split: BufferOp.splits)

lemma ingestedSelections_snoc:
  "ingestedSelections (ops @ [op]) =
     ingestedSelections ops @ (case op of AddSelectionChange sel \<Rightarrow> [sel] | _ \<Rightarrow> [])"
  by (induction ops rule: ingestedSelections.induct) (auto split: BufferOp.splits)

lemma changes_ingest:
  "changes (ingest ops) = drop (length (ingestedChanges ops) - 100) (ingestedChanges ops)"
proof (induction ops rule: rev_induct)
  case Nil
  show ?case by (simp add: ingest_def newContextBuffer_def)
next
  case (snoc op ops)
  show ?case
  proof (cases op)
    case (AddChange change)
    have "changes (ingest (ops @ [op])) =
        drop (length (changes (ingest ops) @ [change]) - 100) (changes (ingest ops) @ [change])"
      using AddChange by (simp add: ingest_snoc changes_addChange maxBufferSize_ingest)
    also have "\<dots> = drop (length (ingestedChanges ops @ [change]) - 100) (ingestedChanges ops @ [change])"
      unfolding snoc.IH by (rule drop_snoc_window) simp
    finally show ?thesis using AddChange by (simp add: ingestedChanges_snoc)
  next
    case (AddSaveEvent now f)
    then show ?thesis using snoc.IH
      by (simp add: ingest_snoc ingestedChanges_snoc addSaveEvent_def Let_def)
  next
    case (AddSelectionChange sel)
    then show ?thesis using snoc.IH
      by (simp add: ingest_snoc ingestedChanges_snoc addSelectionChange_def Let_def)
  next
    case (SetCurrentFile f)
    then show ?thesis using snoc.IH
      by (simp add: ingest_snoc ingestedChanges_snoc setCurrentFile_def)
  qed
qed

lemma saves_ingest:
  "saves (ingest ops) = drop (length (ingestedSaves ops) - 50) (ingestedSaves ops)"
proof (induction ops rule: rev_induct)
  case Nil
  show ?case by (simp add: ingest_def newContextBuffer_def)
next
  case (snoc op ops)
  show ?case
  proof (cases op)
    case (AddChange change)
    then show ?thesis using snoc.IH
      by (simp add: ingest_snoc ingestedSaves_snoc addChange_def Let_def)
  next
    case (AddSaveEvent now f)
    let ?e = "\<lparr>file_save = f, timestamp_save = now\<rparr>"
    have "saves (ingest (ops @ [op])) =
        drop (length (saves (ingest ops) @ [?e]) - 50) (saves (ingest ops) @ [?e])"
      using AddSaveEvent by (simp add: ingest_snoc saves_addSaveEvent)
    also have "\<dots> = drop (length (ingestedSaves ops @ [?e]) - 50) (ingestedSaves ops @ [?e])"
      unfolding snoc.IH by (rule drop_snoc_window) simp
    finally show ?thesis using AddSaveEvent by (simp add: ingestedSaves_snoc)
  next
    case (AddSelectionChange sel)
    then show ?thesis using snoc.IH
      by (simp add: ingest_snoc ingestedSaves_snoc addSelectionChange_def Let_def)
  next
    case (SetCurrentFile f)
    then show ?thesis using snoc.IH
      by (simp add: ingest_snoc ingestedSaves_snoc setCurrentFile_def)
  qed
qed

lemma selections_ingest:
  "selections (ingest ops) = drop (length (ingestedSelections ops) - 20) (ingestedSelections ops)"
proof (induction ops rule: rev_induct)
  case Nil
  show ?case by (simp add: ingest_def newContextBuffer_def)
next
  case (snoc op ops)
  show ?case
  proof (cases op)
    case (AddChange change)
    then show ?thesis using snoc.IH
      by (simp add: ingest_snoc ingestedSelections_snoc addChange_def Let_def)
  next
    case (AddSaveEvent now f)
    then show ?thesis using snoc.IH
      by (simp add: ingest_snoc ingestedSelections_snoc addSaveEvent_def Let_def)
  next
    case (AddSelectionChange sel)
    have "selections (ingest (ops @ [op])) =
        drop (length (selections (ingest ops) @ [sel]) - 20) (selections (ingest ops) @ [sel])"
      using AddSelectionChange by (simp add: ingest_snoc selections_addSelectionChange)
    also have "\<dots> = drop (length (ingestedSelections ops @ [sel]) - 20) (ingestedSelections ops @ [sel])"
      unfolding snoc.IH by (rule drop_snoc_window) simp
    finally show ?thesis using AddSelectionChange by (simp add: ingestedSelections_snoc)
  next
    case (SetCurrentFile f)
    then show ?thesis using snoc.IH
      by (simp add: ingest_snoc ingestedSelections_snoc setCurrentFile_def)
  qed
qed

text \<open>
  Claim C4. After any run of ingest operations on a new buffer, the changes list holds at
  most 100 entries, the saves list at most 50 and the selections list at most 20, and each
  list is the tail of what was handed over, in the order of ingestion: the oldest go first.
  After 101 changes the list holds the last 100 of them.
\<close>

theorem bounded_lists_keep_most_recent:
  "length (changes (ingest ops)) \<le> 100 \<and>
   length (saves (ingest ops)) \<le> 50 \<and>
   length (selections (ingest ops)) \<le> 20 \<and>
   changes (ingest ops) = drop (length (ingestedChanges ops) - 100) (ingestedChanges ops) \<and>
   saves (ingest ops) = drop (length (ingestedSaves ops) - 50) (ingestedSaves ops) \<and>
   selections (ingest ops) =
     drop (length (ingestedSelections ops) - 20) (ingestedSelections ops)"
proof -
  have "n - (n - k) \<le> k" for n k :: nat
    by arith
  then show ?thesis
    by (simp add: changes_ingest saves_ingest selections_ingest)
qed

lemma ingestedChanges_map_AddChange:
  "ingestedChanges (map (\<lambda>n. AddChange (f n)) ns) = map f ns"
  by (induction ns) simp_all

theorem bounded_lists_keep_most_recent_witness:
  "length (ingestedChanges exampleOps101) = 101 \<and>
   length (changes (ingest exampleOps101)) = 100 \<and>
   changes (ingest exampleOps101) = map exampleChange [1..<101]"
proof -
  have ing: "ingestedChanges exampleOps101 = map exampleChange [0..<101]"
    by (simp only: exampleOps101_def ingestedChanges_map_AddChange)
  have "[0..<101] = 0 # [1..<101]"
    by (simp add: upt_conv_Cons)
  then have "drop 1 (map exampleChange [0..<101]) = map exampleChange [1..<101]"
    by simp
  then show ?thesis
    using bounded_lists_keep_most_recent [of exampleOps101] ing by simp
qed

subsection \<open>Reading the buffer\<close>

text \<open>
  Claim C5, as the code has it. \<open>getRecentChanges\<close> leaves the buffer as it was; a second
  call at the same clock reading returns the same list; and a later call, with nothing
  ingested in between, returns the changes of the earlier result that are still inside the
  window.
\<close>

theorem getRecentChanges_leaves_buffer:
  "snd (getRecentChanges now minutes b) = b \<and>
   fst (getRecentChanges now minutes (snd (getRecentChanges now minutes b))) =
     fst (getRecentChanges now minutes b) \<and>
   (now \<le> later \<longrightarrow>
      fst (getRecentChanges later minutes (snd (getRecentChanges now minutes b))) =
        filter (\<lambda>change. timestamp change > later - minutes * 60 * 1000)
          (fst (getRecentChanges now minutes b)))"
  by (auto simp: getRecentChanges_def Let_def intro!: filter_cong)

lemma exampleBuffer_changes: "changes exampleBuffer = [exampleChange 1000]"
  by (simp add: exampleBuffer_def ingest_def newContextBuffer_def addChange_def)

theorem getRecentChanges_leaves_buffer_witness:
  "(600000 :: int) \<le> 601000 \<and>
   snd (getRecentChanges 600000 10 exampleBuffer) = exampleBuffer \<and>
   fst (getRecentChanges 600000 10 exampleBuffer) = [exampleChange 1000] \<and>
   fst (getRecentChanges 601000 10 (snd (getRecentChanges 600000 10 exampleBuffer))) = []"
proof -
  have first: "fst (getRecentChanges 600000 10 exampleBuffer) = [exampleChange 1000]"
    by (simp add: getRecentChanges_def exampleBuffer_changes exampleChange_def)
  have second: "filter (\<lambda>change. timestamp change > 601000 - 10 * 60 * 1000)
      [exampleChange 1000] = []"
    by (simp add: exampleChange_def)
  show ?thesis
    using getRecentChanges_leaves_buffer [of 600000 10 exampleBuffer 601000]
    unfolding first second by (elim conjE) simp
qed

text \<open>
  Claim C5 for two calls at any two moments fails: the cutoff moves with the clock, so a
  change can leave the window between the calls.
\<close>

theorem getRecentChanges_twice_counterexample:
  "fst (getRecentChanges 601000 10 (snd (getRecentChanges 600000 10 exampleBuffer))) \<noteq>
   fst (getRecentChanges 600000 10 exampleBuffer)"
  by (simp add: getRecentChanges_def exampleBuffer_changes exampleChange_def)

subsection \<open>Stopping\<close>

lemma deliver_inactive: "\<not> isActive s \<Longrightarrow> deliver s event = (s, [])"
  by (cases event)
    (simp_all add: onDocumentChange_def onEditorChange_def onDocumentSave_def
      onWorkspaceFolderChange_def onSelectionChange_def updateContextPeriodically_def
      split: option.splits)

lemma deliverAll_inactive: "\<not> isActive s \<Longrightarrow> deliverAll s events = (s, [])"
  by (induction events) (simp_all add: deliver_inactive)

text \<open>
  Claim C6. Once \<open>stop\<close> has run, every notification handed to a handler, and every run of
  notifications, leaves the stream and its buffer as they are and sends nothing out: each
  handler returns at its test of \<open>isActive\<close>.
\<close>

theorem events_after_stop_are_ignored:
  "deliver (stop s) event = (stop s, []) \<and> deliverAll (stop s) events = (stop s, [])"
  by (simp add: deliver_inactive deliverAll_inactive stop_def)

lemma exampleStream_eq:
  "exampleStream =
     \<lparr>contextBuffer = \<lparr>changes = [exampleChange 1000], saves = [], selections = [],
         currentFile = [], maxBufferSize = 100\<rparr>,
      disposables = [OnDidChangeTextDocument, OnDidChangeActiveTextEditor, OnDidSaveTextDocument,
                OnDidChangeWorkspaceFolders, OnDidChangeTextEditorSelection],
      isActive = True, contextUpdateTimer = Some 5000\<rparr>"
  by (simp add: exampleStream_def startContextTracking_def newLiveContextStream_def
      newContextBuffer_def onDocumentChange_def exampleDocument_def addChange_def
      exampleChange_def)

theorem events_after_stop_are_ignored_witness:
  "deliverAll (stop exampleStream) exampleEvents = (stop exampleStream, []) \<and>
   changes (contextBuffer (fst (deliverAll (stop exampleStream) exampleEvents))) =
     [exampleChange 1000] \<and>
   length (changes (contextBuffer (fst (deliverAll exampleStream exampleEvents)))) = 2"
proof -
  have running:
    "length (changes (contextBuffer (fst (deliverAll exampleStream exampleEvents)))) = 2"
    by (simp add: exampleStream_eq exampleEvents_def onDocumentChange_def onEditorChange_def
        onDocumentSave_def onWorkspaceFolderChange_def onSelectionChange_def
        updateContextPeriodically_def getLatestContext_recentChanges_def getRecentChanges_def
        exampleDocument_def addChange_def addSaveEvent_def addSelectionChange_def
        setCurrentFile_def sliceFromEnd_def Let_def)
  have kept: "changes (contextBuffer (stop exampleStream)) = [exampleChange 1000]"
    by (simp add: exampleStream_eq stop_def)
  show ?thesis
    using events_after_stop_are_ignored [of exampleStream "hd exampleEvents" exampleEvents]
      running kept
    by simp
qed

text \<open>
  Claim C10. \<open>stop\<close> leaves the buffer untouched: the changes, the saves, the selections
  and the current file are as before, and the recent changes read after \<open>stop\<close> are those
  read before it.
\<close>

theorem stop_keeps_history:
  "contextBuffer (stop s) = contextBuffer s \<and>
   changes (contextBuffer (stop s)) = changes (contextBuffer s) \<and>
   saves (contextBuffer (stop s)) = saves (contextBuffer s) \<and>
   selections (contextBuffer (stop s)) = selections (contextBuffer s) \<and>
   currentFile (contextBuffer (stop s)) = currentFile (contextBuffer s) \<and>
   fst (getLatestContext_recentChanges now (stop s)) = fst (getLatestContext_recentChanges now s)"
  by (simp add: stop_def getLatestContext_recentChanges_def getRecentChanges_def Let_def)

theorem stop_keeps_history_witness:
  "changes (contextBuffer (stop exampleStream)) = [exampleChange 1000] \<and>
   isActive (stop exampleStream) = False \<and>
   fst (getLatestContext_recentChanges 2000 (stop exampleStream)) = [exampleChange 1000]"
proof -
  have "fst (getLatestContext_recentChanges 2000 exampleStream) = [exampleChange 1000]"
    by (simp add: exampleStream_eq getLatestContext_recentChanges_def getRecentChanges_def
        exampleChange_def)
  then show ?thesis
    using stop_keeps_history [of exampleStream 2000]
    by (simp add: exampleStream_eq stop_def)
qed

section \<open>Properties of the enhancement layer\<close>

subsection \<open>Substrings\<close>

lemma startsWith_iff: "startsWith s k \<longleftrightarrow> (\<exists>rest. s = k @ rest)"
  by (induction s k rule: startsWith.induct) auto

lemma includes_str_iff: "includes_str s k \<longleftrightarrow> (\<exists>front rest. s = front @ k @ rest)"
proof (induction s)
  case Nil
  show ?case by auto
next
  case (Cons c cs)
  show ?case
  proof
    assume "includes_str (c # cs) k"
    then consider "startsWith (c # cs) k" | "includes_str cs k" by auto
    then show "\<exists>front rest. c # cs = front @ k @ rest"
    proof cases
      case 1
      then obtain rest where "c # cs = [] @ k @ rest" by (auto simp: startsWith_iff)
      then show ?thesis by blast
    next
      case 2
      then obtain front rest where "cs = front @ k @ rest" using Cons.IH by blast
      then have "c # cs = (c # front) @ k @ rest" by simp
      then show ?thesis by blast
    qed
  next
    assume "\<exists>front rest. c # cs = front @ k @ rest"
    then obtain front rest where eq: "c # cs = front @ k @ rest" by blast
    show "includes_str (c # cs) k"
    proof (cases front)
      case Nil
      with eq have "startsWith (c # cs) k" by (auto simp: startsWith_iff)
      then show ?thesis by simp
    next
      case (Cons c' front')
      with eq have "cs = front' @ k @ rest" by simp
      then have "includes_str cs k" using Cons.IH by blast
      then show ?thesis by simp
    qed
  qed
qed

lemma includes_self: "includes_str k k"
  unfolding includes_str_iff by (rule exI [of _ "[]"], rule exI [of _ "[]"]) simp

lemma includes_head: "includes_str (k @ rest) k"
  unfolding includes_str_iff by (rule exI [of _ "[]"], rule exI [of _ rest]) simp

lemma includes_skip: "includes_str s k \<Longrightarrow> includes_str (front @ s) k"
  unfolding includes_str_iff by (metis append.assoc)

lemma includes_left: "includes_str s k \<Longrightarrow> includes_str (s @ rest) k"
  unfolding includes_str_iff by (metis append.assoc)

lemma includes_join: "x \<in> set xs \<Longrightarrow> includes_str (join xs sep) x"
proof (induction xs sep rule: join.induct)
  case (1 sep)
  then show ?case by simp
next
  case (2 x' sep)
  then show ?case by (simp add: includes_self)
next
  case (3 x' y ys sep)
  show ?case
  proof (cases "x = x'")
    case True
    then show ?thesis by (simp add: includes_head)
  next
    case False
    with 3 have "includes_str (join (y # ys) sep) x" by simp
    then have "includes_str (x' @ sep @ join (y # ys) sep) x"
      by (intro includes_skip)
    then show ?thesis by simp
  qed
qed

lemma includes_join_bullets:
  "x \<in> set xs \<Longrightarrow> includes_str (join (map (\<lambda>item. ''- '' @ item) xs) sep) x"
proof -
  assume "x \<in> set xs"
  then have "''- '' @ x \<in> set (map (\<lambda>item. ''- '' @ item) xs)" by simp
  then have "includes_str (join (map (\<lambda>item. ''- '' @ item) xs) sep) (''- '' @ x)"
    by (rule includes_join)
  then obtain front rest where
    "join (map (\<lambda>item. ''- '' @ item) xs) sep = front @ (''- '' @ x) @ rest"
    unfolding includes_str_iff by blast
  then have "join (map (\<lambda>item. ''- '' @ item) xs) sep = (front @ ''- '') @ x @ rest"
    by simp
  then show ?thesis unfolding includes_str_iff by blast
qed

lemma hd_in_take: "xs \<noteq> [] \<Longrightarrow> 0 < n \<Longrightarrow> hd xs \<in> set (take n xs)"
  by (cases xs; cases n) simp_all

subsection \<open>The three templates\<close>

lemma minimal_prompt:
  "createEnhancedPrompt ''minimal'' p kh vs =
     p @ newline @ newline @ ''[Project: '' @ workspaceRoot vs @ '']''"
  by (simp add: createEnhancedPrompt_def)

lemma standard_prompt:
  "createEnhancedPrompt ''standard'' p kh vs =
     newline @ ''# Context from KnowledgeHub AI Intelligence'' @ newline @
     newline @ ''## Current File: '' @ activeFile vs @ newline @
     ''## Git Branch: '' @ gitBranch vs @ newline @
     newline @ ''## Recent Project Patterns:'' @ newline @
     join (take 3 (relevantPatterns kh)) newline @ newline @
     newline @ ''## Original Request:'' @ newline @
     p @ newline"
  by (simp add: createEnhancedPrompt_def)

lemma fallback_prompt:
  "level \<noteq> ''minimal'' \<Longrightarrow> level \<noteq> ''standard'' \<Longrightarrow>
     createEnhancedPrompt level p kh vs = createEnhancedPrompt ''maximum'' p kh vs"
  by (simp add: createEnhancedPrompt_def)

lemma maximum_prompt:
  "createEnhancedPrompt ''maximum'' p kh vs =
     newline @ ''# Enhanced Context from KnowledgeHub AI Intelligence'' @ newline @
     newline @ ''## Project Context:'' @ newline @
     projectSummary kh @ newline @
     newline @ ''## Relevant Past Decisions:'' @ newline @
     join (map (\<lambda>decision. ''- '' @ decision) (take 3 (relevantDecisions kh))) newline @ newline @
     newline @ ''## Known Patterns for This Task:'' @ newline @
     join (map (\<lambda>pattern. ''- '' @ pattern) (take 5 (relevantPatterns kh))) newline @ newline @
     newline @ ''## Current Development Context:'' @ newline @
     ''- **File**: '' @ activeFile vs @ newline @
     ''- **Git Branch**: '' @ gitBranch vs @ newline @
     ''- **Workspace**: '' @ workspaceRoot vs @ newline @
     ''- **Selected Text**: '' @
       (case selectedText vs of
          None \<Rightarrow> ''None''
        | Some sel \<Rightarrow> if sel = [] then ''None'' else doubleQuote @ sel @ doubleQuote) @
       newline @
     newline @ ''## AI Suggestions:'' @ newline @
     join (map (\<lambda>suggestion. ''- '' @ suggestion) (take 3 (suggestions kh))) newline @ newline @
     newline @ ''## Original Request:'' @ newline @
     p @ newline @
     newline @ ''---'' @ newline @
     ''Please provide a response that considers the full project context, learned patterns, and past decisions. Focus on consistency with existing codebase patterns and architectural decisions.'' @
     newline"
proof -
  have "''maximum'' \<noteq> ''minimal''" "''maximum'' \<noteq> ''standard''" by simp_all
  then show ?thesis
    unfolding createEnhancedPrompt_def by (simp only: if_False)
qed

lemma minimal_includes_prompt:
  "includes_str (createEnhancedPrompt ''minimal'' p kh vs) p"
  unfolding minimal_prompt by (rule includes_head)

lemma minimal_includes_project:
  "includes_str (createEnhancedPrompt ''minimal'' p kh vs) (''[Project: '' @ workspaceRoot vs @ '']'')"
  unfolding minimal_prompt
  by (rule includes_self | rule includes_head | rule includes_skip)+

lemma standard_includes_prompt:
  "includes_str (createEnhancedPrompt ''standard'' p kh vs) p"
  unfolding standard_prompt
  by (rule includes_head | rule includes_skip)+

lemma standard_includes_pattern:
  "pat \<in> set (take 3 (relevantPatterns kh)) \<Longrightarrow>
     includes_str (createEnhancedPrompt ''standard'' p kh vs) pat"
  unfolding standard_prompt
  by (rule includes_head | (rule includes_left, rule includes_join, assumption)
      | rule includes_skip)+

lemma maximum_includes_prompt:
  "includes_str (createEnhancedPrompt ''maximum'' p kh vs) p"
  unfolding maximum_prompt
  by (rule includes_head | rule includes_skip)+

lemma maximum_includes_summary:
  "includes_str (createEnhancedPrompt ''maximum'' p kh vs) (projectSummary kh)"
  unfolding maximum_prompt
  by (rule includes_head | rule includes_skip)+

lemma standard_includes_file:
  "includes_str (createEnhancedPrompt ''standard'' p kh vs) (activeFile vs)"
  unfolding standard_prompt
  by (rule includes_head | rule includes_skip)+

lemma standard_includes_branch:
  "includes_str (createEnhancedPrompt ''standard'' p kh vs) (gitBranch vs)"
  unfolding standard_prompt
  by (rule includes_head | rule includes_skip)+

lemma maximum_includes_file:
  "includes_str (createEnhancedPrompt ''maximum'' p kh vs) (activeFile vs)"
  unfolding maximum_prompt
  by (rule includes_head | rule includes_skip)+

lemma maximum_includes_branch:
  "includes_str (createEnhancedPrompt ''maximum'' p kh vs) (gitBranch vs)"
  unfolding maximum_prompt
  by (rule includes_head | rule includes_skip)+

lemma maximum_includes_workspace:
  "includes_str (createEnhancedPrompt ''maximum'' p kh vs) (workspaceRoot vs)"
  unfolding maximum_prompt
  by (rule includes_head | rule includes_skip)+

lemma maximum_includes_decision:
  "d \<in> set (take 3 (relevantDecisions kh)) \<Longrightarrow>
     includes_str (createEnhancedPrompt ''maximum'' p kh vs) d"
  unfolding maximum_prompt
  by (rule includes_head | (rule includes_left, rule includes_join_bullets, assumption)
      | rule includes_skip)+

lemma maximum_includes_pattern:
  "pat \<in> set (take 5 (relevantPatterns kh)) \<Longrightarrow>
     includes_str (createEnhancedPrompt ''maximum'' p kh vs) pat"
  unfolding maximum_prompt
  by (rule includes_head | (rule includes_left, rule includes_join_bullets, assumption)
      | rule includes_skip)+

lemma maximum_includes_suggestion:
  "sg \<in> set (take 3 (suggestions kh)) \<Longrightarrow>
     includes_str (createEnhancedPrompt ''maximum'' p kh vs) sg"
  unfolding maximum_prompt
  by (rule includes_head | (rule includes_left, rule includes_join_bullets, assumption)
      | rule includes_skip)+

text \<open>
  Claim C7. At level \<open>minimal\<close> the enhanced prompt is the original prompt followed by the
  project-path marker and nothing else, so it is the same for every knowledge context. At
  level \<open>standard\<close> it is the template of file, branch, the first three patterns and the
  original prompt: it contains the prompt, the file, the branch and each of the first three
  patterns supplied, so at least one when any is supplied. At level \<open>maximum\<close> it is the
  template of project summary, the first three decisions, the first five patterns, file,
  branch, workspace, selection, the first three suggestions and the original prompt, and
  contains each of them. Any level other than \<open>minimal\<close> and \<open>standard\<close> gives the \<open>maximum\<close>
  template.
\<close>

theorem enhancement_level_templates:
  "createEnhancedPrompt ''minimal'' p kh vs =
     p @ newline @ newline @ ''[Project: '' @ workspaceRoot vs @ '']'' \<and>
   createEnhancedPrompt ''minimal'' p kh vs = createEnhancedPrompt ''minimal'' p kh' vs \<and>
   includes_str (createEnhancedPrompt ''minimal'' p kh vs) p \<and>
   includes_str (createEnhancedPrompt ''minimal'' p kh vs)
     (''[Project: '' @ workspaceRoot vs @ '']'') \<and>
   createEnhancedPrompt ''standard'' p kh vs =
     newline @ ''# Context from KnowledgeHub AI Intelligence'' @ newline @
     newline @ ''## Current File: '' @ activeFile vs @ newline @
     ''## Git Branch: '' @ gitBranch vs @ newline @
     newline @ ''## Recent Project Patterns:'' @ newline @
     join (take 3 (relevantPatterns kh)) newline @ newline @
     newline @ ''## Original Request:'' @ newline @
     p @ newline \<and>
   includes_str (createEnhancedPrompt ''standard'' p kh vs) p \<and>
   includes_str (createEnhancedPrompt ''standard'' p kh vs) (activeFile vs) \<and>
   includes_str (createEnhancedPrompt ''standard'' p kh vs) (gitBranch vs) \<and>
   (\<forall>pat \<in> set (take 3 (relevantPatterns kh)).
      includes_str (createEnhancedPrompt ''standard'' p kh vs) pat) \<and>
   (relevantPatterns kh \<noteq> [] \<longrightarrow>
      (\<exists>pat \<in> set (relevantPatterns kh).
         includes_str (createEnhancedPrompt ''standard'' p kh vs) pat)) \<and>
   createEnhancedPrompt ''maximum'' p kh vs =
     newline @ ''# Enhanced Context from KnowledgeHub AI Intelligence'' @ newline @
     newline @ ''## Project Context:'' @ newline @
     projectSummary kh @ newline @
     newline @ ''## Relevant Past Decisions:'' @ newline @
     join (map (\<lambda>decision. ''- '' @ decision) (take 3 (relevantDecisions kh))) newline @ newline @
     newline @ ''## Known Patterns for This Task:'' @ newline @
     join (map (\<lambda>pattern. ''- '' @ pattern) (take 5 (relevantPatterns kh))) newline @ newline @
     newline @ ''## Current Development Context:'' @ newline @
     ''- **File**: '' @ activeFile vs @ newline @
     ''- **Git Branch**: '' @ gitBranch vs @ newline @
     ''- **Workspace**: '' @ workspaceRoot vs @ newline @
     ''- **Selected Text**: '' @
       (case selectedText vs of
          None \<Rightarrow> ''None''
        | Some sel \<Rightarrow> if sel = [] then ''None'' else doubleQuote @ sel @ doubleQuote) @
       newline @
     newline @ ''## AI Suggestions:'' @ newline @
     join (map (\<lambda>suggestion. ''- '' @ suggestion) (take 3 (suggestions kh))) newline @ newline @
     newline @ ''## Original Request:'' @ newline @
     p @ newline @
     newline @ ''---'' @ newline @
     ''Please provide a response that considers the full project context, learned patterns, and past decisions. Focus on consistency with existing codebase patterns and architectural decisions.'' @
     newline \<and>
   includes_str (createEnhancedPrompt ''maximum'' p kh vs) p \<and>
   includes_str (createEnhancedPrompt ''maximum'' p kh vs) (projectSummary kh) \<and>
   includes_str (createEnhancedPrompt ''maximum'' p kh vs) (activeFile vs) \<and>
   includes_str (createEnhancedPrompt ''maximum'' p kh vs) (gitBranch vs) \<and>
   includes_str (createEnhancedPrompt ''maximum'' p kh vs) (workspaceRoot vs) \<and>
   (\<forall>d \<in> set (take 3 (relevantDecisions kh)).
      includes_str (createEnhancedPrompt ''maximum'' p kh vs) d) \<and>
   (\<forall>pat \<in> set (take 5 (relevantPatterns kh)).
      includes_str (createEnhancedPrompt ''maximum'' p kh vs) pat) \<and>
   (\<forall>sg \<in> set (take 3 (suggestions kh)).
      includes_str (createEnhancedPrompt ''maximum'' p kh vs) sg) \<and>
   (relevantDecisions kh \<noteq> [] \<and> relevantPatterns kh \<noteq> [] \<and> suggestions kh \<noteq> [] \<longrightarrow>
      (\<exists>d \<in> set (relevantDecisions kh).
         includes_str (createEnhancedPrompt ''maximum'' p kh vs) d) \<and>
      (\<exists>pat \<in> set (relevantPatterns kh).
         includes_str (createEnhancedPrompt ''maximum'' p kh vs) pat) \<and>
      (\<exists>sg \<in> set (suggestions kh).
         includes_str (createEnhancedPrompt ''maximum'' p kh vs) sg)) \<and>
   (level \<noteq> ''minimal'' \<and> level \<noteq> ''standard'' \<longrightarrow>
      createEnhancedPrompt level p kh vs = createEnhancedPrompt ''maximum'' p kh vs)"
proof -
  have first: "hd xs \<in> set xs \<and> hd xs \<in> set (take 3 xs) \<and> hd xs \<in> set (take 5 xs)"
    if "xs \<noteq> []" for xs :: "string list"
    using that by (simp add: hd_in_take)
  have minimal_same:
    "createEnhancedPrompt ''minimal'' p kh vs = createEnhancedPrompt ''minimal'' p kh' vs"
    by (simp only: minimal_prompt)
  have standard_some: "\<exists>pat \<in> set (relevantPatterns kh).
      includes_str (createEnhancedPrompt ''standard'' p kh vs) pat"
    if "relevantPatterns kh \<noteq> []"
    using first [OF that] standard_includes_pattern by blast
  have decision_some: "\<exists>d \<in> set (relevantDecisions kh).
      includes_str (createEnhancedPrompt ''maximum'' p kh vs) d"
    if "relevantDecisions kh \<noteq> []"
    using first [OF that] maximum_includes_decision by blast
  have pattern_some: "\<exists>pat \<in> set (relevantPatterns kh).
      includes_str (createEnhancedPrompt ''maximum'' p kh vs) pat"
    if "relevantPatterns kh \<noteq> []"
    using first [OF that] maximum_includes_pattern by blast
  have suggestion_some: "\<exists>sg \<in> set (suggestions kh).
      includes_str (createEnhancedPrompt ''maximum'' p kh vs) sg"
    if "suggestions kh \<noteq> []"
    using first [OF that] maximum_includes_suggestion by blast
  show ?thesis
    apply (intro conjI ballI impI)
                        apply (rule minimal_prompt)
                       apply (rule minimal_same)
                      apply (rule minimal_includes_prompt)
                     apply (rule minimal_includes_project)
                    apply (rule standard_prompt)
                   apply (rule standard_includes_prompt)
                  apply (rule standard_includes_file)
                 apply (rule standard_includes_branch)
                apply (erule standard_includes_pattern)
               apply (erule standard_some)
              apply (rule maximum_prompt)
             apply (rule maximum_includes_prompt)
            apply (rule maximum_includes_summary)
           apply (rule maximum_includes_file)
          apply (rule maximum_includes_branch)
         apply (rule maximum_includes_workspace)
        apply (erule maximum_includes_decision)
       apply (erule maximum_includes_pattern)
      apply (erule maximum_includes_suggestion)
     apply (elim conjE, erule decision_some)
    apply (elim conjE, erule pattern_some)
    apply (elim conjE, erule suggestion_some)
    apply (elim conjE, erule (1) fallback_prompt)
    done
qed

text \<open>
  On the sample request the \<open>standard\<close> prompt is the text below, with the file \<open>test.js\<close>,
  the branch \<open>main\<close> and both patterns in it, and an unknown level gives the \<open>maximum\<close>
  prompt.
\<close>

theorem enhancement_level_templates_witness:
  "createEnhancedPrompt ''minimal'' (prompt exampleRequest) exampleKnowledge exampleVSCode =
     ''Create a user authentication function'' @ newline @ newline @
     ''[Project: /opt/projects/test]'' \<and>
   createEnhancedPrompt ''standard'' (prompt exampleRequest) exampleKnowledge exampleVSCode =
     newline @ ''# Context from KnowledgeHub AI Intelligence'' @ newline @
     newline @ ''## Current File: test.js'' @ newline @
     ''## Git Branch: main'' @ newline @
     newline @ ''## Recent Project Patterns:'' @ newline @
     ''JWT authentication'' @ newline @ ''Express middleware'' @ newline @
     newline @ ''## Original Request:'' @ newline @
     ''Create a user authentication function'' @ newline \<and>
   includes_str
     (createEnhancedPrompt ''standard'' (prompt exampleRequest) exampleKnowledge exampleVSCode)
     ''JWT authentication'' \<and>
   includes_str
     (createEnhancedPrompt ''maximum'' (prompt exampleRequest) exampleKnowledge exampleVSCode)
     ''Use bcrypt for password hashing'' \<and>
   includes_str
     (createEnhancedPrompt ''maximum'' (prompt exampleRequest) exampleKnowledge exampleVSCode)
     ''Express middleware'' \<and>
   includes_str
     (createEnhancedPrompt ''maximum'' (prompt exampleRequest) exampleKnowledge exampleVSCode)
     ''Consider rate limiting for login attempts'' \<and>
   createEnhancedPrompt ''verbose'' (prompt exampleRequest) exampleKnowledge exampleVSCode =
     createEnhancedPrompt ''maximum'' (prompt exampleRequest) exampleKnowledge exampleVSCode"
proof -
  note all = enhancement_level_templates
      [of "prompt exampleRequest" exampleKnowledge exampleVSCode exampleKnowledge "''verbose''"]
  have jwt: "''JWT authentication'' \<in> set (take 3 (relevantPatterns exampleKnowledge))"
    and express: "''Express middleware'' \<in> set (take 5 (relevantPatterns exampleKnowledge))"
    and bcrypt: "''Use bcrypt for password hashing'' \<in>
      set (take 3 (relevantDecisions exampleKnowledge))"
    and limiting: "''Consider rate limiting for login attempts'' \<in>
      set (take 3 (suggestions exampleKnowledge))"
    by (simp_all add: exampleKnowledge_def)
  have footer: "prompt exampleRequest @ newline @ newline @
      ''[Project: '' @ workspaceRoot exampleVSCode @ '']'' =
      ''Create a user authentication function'' @ newline @ newline @
      ''[Project: /opt/projects/test]''"
    by (simp add: exampleVSCode_def exampleRequest_def)
  have body: "newline @ ''# Context from KnowledgeHub AI Intelligence'' @ newline @
     newline @ ''## Current File: '' @ activeFile exampleVSCode @ newline @
     ''## Git Branch: '' @ gitBranch exampleVSCode @ newline @
     newline @ ''## Recent Project Patterns:'' @ newline @
     join (take 3 (relevantPatterns exampleKnowledge)) newline @ newline @
     newline @ ''## Original Request:'' @ newline @
     prompt exampleRequest @ newline =
     newline @ ''# Context from KnowledgeHub AI Intelligence'' @ newline @
     newline @ ''## Current File: test.js'' @ newline @
     ''## Git Branch: main'' @ newline @
     newline @ ''## Recent Project Patterns:'' @ newline @
     ''JWT authentication'' @ newline @ ''Express middleware'' @ newline @
     newline @ ''## Original Request:'' @ newline @
     ''Create a user authentication function'' @ newline"
    by (simp add: exampleVSCode_def exampleRequest_def exampleKnowledge_def)
  have level: "''verbose'' \<noteq> ''minimal'' \<and> ''verbose'' \<noteq> ''standard''"
    by simp
  from all have
    "createEnhancedPrompt ''minimal'' (prompt exampleRequest) exampleKnowledge exampleVSCode =
     prompt exampleRequest @ newline @ newline @
       ''[Project: '' @ workspaceRoot exampleVSCode @ '']''"
    by (rule conjunct1)
  with footer have c1:
    "createEnhancedPrompt ''minimal'' (prompt exampleRequest) exampleKnowledge exampleVSCode =
     ''Create a user authentication function'' @ newline @ newline @
     ''[Project: /opt/projects/test]''"
    by (rule back_subst [where P = "\<lambda>t. _ = t", rotated])
  from all have
    "createEnhancedPrompt ''standard'' (prompt exampleRequest) exampleKnowledge exampleVSCode =
     newline @ ''# Context from KnowledgeHub AI Intelligence'' @ newline @
     newline @ ''## Current File: '' @ activeFile exampleVSCode @ newline @
     ''## Git Branch: '' @ gitBranch exampleVSCode @ newline @
     newline @ ''## Recent Project Patterns:'' @ newline @
     join (take 3 (relevantPatterns exampleKnowledge)) newline @ newline @
     newline @ ''## Original Request:'' @ newline @
     prompt exampleRequest @ newline"
    by (elim conjE)
  then have c1s:
    "createEnhancedPrompt ''standard'' (prompt exampleRequest) exampleKnowledge exampleVSCode =
     newline @ ''# Context from KnowledgeHub AI Intelligence'' @ newline @
     newline @ ''## Current File: test.js'' @ newline @
     ''## Git Branch: main'' @ newline @
     newline @ ''## Recent Project Patterns:'' @ newline @
     ''JWT authentication'' @ newline @ ''Express middleware'' @ newline @
     newline @ ''## Original Request:'' @ newline @
     ''Create a user authentication function'' @ newline"
    using body by (rule trans)
  from all jwt have c2: "includes_str
     (createEnhancedPrompt ''standard'' (prompt exampleRequest) exampleKnowledge exampleVSCode)
     ''JWT authentication''"
    by blast
  from all bcrypt have c3: "includes_str
     (createEnhancedPrompt ''maximum'' (prompt exampleRequest) exampleKnowledge exampleVSCode)
     ''Use bcrypt for password hashing''"
    by blast
  from all express have c4: "includes_str
     (createEnhancedPrompt ''maximum'' (prompt exampleRequest) exampleKnowledge exampleVSCode)
     ''Express middleware''"
    by blast
  from all limiting have c5: "includes_str
     (createEnhancedPrompt ''maximum'' (prompt exampleRequest) exampleKnowledge exampleVSCode)
     ''Consider rate limiting for login attempts''"
    by blast
  from all level have c6:
    "createEnhancedPrompt ''verbose'' (prompt exampleRequest) exampleKnowledge exampleVSCode =
     createEnhancedPrompt ''maximum'' (prompt exampleRequest) exampleKnowledge exampleVSCode"
    by blast
  from c1 c1s c2 c3 c4 c5 c6 show ?thesis
    by (intro conjI)
qed

subsection \<open>Failures while enhancing\<close>

text \<open>
  Claim C9. \<open>enhanceAIRequest\<close> never throws: it always returns a request. It returns the
  original request when the layer is inactive, when gathering the editor context fails and
  when the call to the knowledge service fails; and whatever it returns carries the
  original request's fields.
\<close>

theorem enhanceAIRequest_never_throws:
  "(\<exists>r. enhanceAIRequest active level gathered service request = Inr r) \<and>
   (\<not> active \<longrightarrow>
      enhanceAIRequest active level gathered service request = Inr (Original request)) \<and>
   (\<forall>e. gathered = Inl e \<longrightarrow>
      enhanceAIRequest active level gathered service request = Inr (Original request)) \<and>
   (\<forall>vs e. gathered = Inr vs \<and>
        service \<lparr>query = prompt request, currentFile_query = activeFile vs,
                 workspaceRoot_query = workspaceRoot vs,
                 recentChanges_query = recentChanges_vs vs\<rparr> = Inl e \<longrightarrow>
      enhanceAIRequest active level gathered service request = Inr (Original request)) \<and>
   (\<forall>r. enhanceAIRequest active level gathered service request = Inr r \<longrightarrow>
      (case r of Original q \<Rightarrow> q = request | Enhanced q ep kh vs \<Rightarrow> q = request))"
  by (auto simp: enhanceAIRequest_def tryCatch_def split: sum.splits)

theorem enhanceAIRequest_never_throws_witness:
  "enhanceAIRequest False ''maximum'' (Inr exampleVSCode) exampleService exampleRequest =
     Inr (Original exampleRequest) \<and>
   enhanceAIRequest True ''maximum'' (Inl (Error ''no editor'')) exampleService exampleRequest =
     Inr (Original exampleRequest) \<and>
   enhanceAIRequest True ''maximum'' (Inr exampleVSCode) exampleFailingService exampleRequest =
     Inr (Original exampleRequest)"
proof -
  have fails: "exampleFailingService
      \<lparr>query = prompt exampleRequest, currentFile_query = activeFile exampleVSCode,
       workspaceRoot_query = workspaceRoot exampleVSCode,
       recentChanges_query = recentChanges_vs exampleVSCode\<rparr> =
      Inl (Error ''Failed to get enhanced context: Network Error'')"
    by (simp add: exampleFailingService_def)
  show ?thesis
    using enhanceAIRequest_never_throws
        [of False "''maximum''" "Inr exampleVSCode" exampleService exampleRequest]
      enhanceAIRequest_never_throws
        [of True "''maximum''" "Inl (Error ''no editor'')" exampleService exampleRequest]
      enhanceAIRequest_never_throws
        [of True "''maximum''" "Inr exampleVSCode" exampleFailingService exampleRequest]
      fails
    by simp
qed

end
